theory Spec2Isabelle
  imports Main "HOL-Library.AList"
begin

unbundle bit_operations_syntax

section \<open>JavaScript values and effects\<close>

text \<open>
  The values the variable \<open>passed\<close> of \<open>Pass1\<close> and \<open>singleRun\<close> takes: it starts as the
  boolean \<open>true\<close>, \<open>&=\<close> turns it into a number, \<open>Pass2\<close> returns a boolean, and an
  async function without a \<open>return\<close> statement resolves with \<open>undefined\<close>.
\<close>

datatype jsval = JSUndefined | JSBool bool | JSNum int

fun truthy :: "jsval \<Rightarrow> bool" where
  "truthy JSUndefined = False"
| "truthy (JSBool b) = b"
| "truthy (JSNum n) = (n \<noteq> 0)"

text \<open>\<open>ToInt32\<close>, the conversion both operands of \<open>&\<close> go through.\<close>

fun ToInt32 :: "jsval \<Rightarrow> int" where
  "ToInt32 JSUndefined = 0"
| "ToInt32 (JSBool b) = (if b then 1 else 0)"
| "ToInt32 (JSNum n) = (n + 2 ^ 31) mod 2 ^ 32 - 2 ^ 31"

definition bitand :: "jsval \<Rightarrow> jsval \<Rightarrow> jsval" where
  "bitand a b = JSNum (ToInt32 a AND ToInt32 b)"

text \<open>
  How a promise fails: a thrown \<open>Error\<close> with its message, a \<open>TypeError\<close> of the engine,
  or a rejection with a raw string (\<open>reject(stdout)\<close>).
\<close>

datatype failure = Error string | TypeError | Raw string

text \<open>
  Everything the command does to the outside, in the order it does it. Terminal styling
  (the \<open>chalk\<close> package) only wraps a text in colour codes and is left out.
\<close>

datatype effect =
    Stderr string
  | Chdir string
  | Glob string
  | Lint string "string list"
  | WriteFile string string
  | Spawn string "string list"
  | Unlink string
  | BeepCount nat
  | BeepPattern "nat list"
  | Watch string

definition nl :: string where
  "nl = [CHR 0x0A]"

definition dq :: string where
  "dq = [CHR 0x22]"

fun join :: "string \<Rightarrow> string list \<Rightarrow> string" where
  "join sep [] = []"
| "join sep [x] = x"
| "join sep (x # y # ys) = x @ sep @ join sep (y # ys)"

text \<open>Decimal rendering of a count, as string conversion of a non-negative integer does.\<close>

fun show_nat :: "nat \<Rightarrow> string" where
  "show_nat n =
     (if n < 10 then [char_of (48 + n)]
      else show_nat (n div 10) @ [char_of (48 + n mod 10)])"

declare show_nat.simps [simp del]

section \<open>Options, installation and collaborators\<close>

record opts =
  cwd :: string
  debug :: bool
  verbose :: bool
  watch :: bool
  beep :: bool
  server :: bool
  env :: string
  tag :: string

text \<open>
  What the command reads from its installation and process: \<open>pkg.version\<close>,
  \<open>process.execPath\<close>, the two \<open>require.resolve\<close> results, \<open>cfg.path.source\<close>,
  \<open>path.join\<close>, the \<open>table\<close> package's renderer, \<open>path.relative(process.cwd(), _)\<close>.
\<close>

record platform =
  version :: string
  nodeExe :: string
  webpackCli :: string
  gwcFile :: string
  source :: string
  path_join :: "string list \<Rightarrow> string"
  table_table :: "string list list \<Rightarrow> string"
  relative :: "string \<Rightarrow> string"

record finding =
  ctx :: string
  filename :: string
  line :: nat
  column :: nat
  message :: string
  ruleProc :: string
  ruleId :: string

text \<open>
  A linter resolves with its pass flag and appends its findings to the shared report
  (the collaborator contract \<open>lint(filePaths, options, report) -> boolean\<close>).
\<close>

record lint_reply =
  flag :: bool
  found :: "finding list"

text \<open>
  The report of the bundler once parsed. Only \<open>errors\<close> and \<open>warnings\<close> decide anything;
  the rows of the three tables are what the code derives from \<open>stats.entrypoints\<close>,
  \<open>stats.chunks\<close> and \<open>stats.modules\<close>.
\<close>

record stats =
  errors :: "string list"
  warnings :: "string list"
  entry_rows :: "string list list"
  chunk_rows :: "string list list"
  module_rows :: "string list list"

text \<open>
  What \<open>JSON.parse(stdout)\<close> yields when it does not throw: a report, or some other
  value, one without the arrays \<open>errors\<close> and \<open>warnings\<close>.
\<close>

datatype json = NotStats | Stats stats

text \<open>
  The behaviour of the external collaborators during one run: the file search, the five
  linters (by the name of their rule processor), the rendering of the findings' details,
  the bundler's standard output and exit code, and \<open>JSON.parse\<close> (\<open>None\<close> when it
  throws). The linters' progress bar is terminal rendering and is left out.
\<close>

record collab =
  glob :: "string \<Rightarrow> string list"
  linter :: "string \<Rightarrow> string list \<Rightarrow> lint_reply"
  details :: "finding list \<Rightarrow> string list"
  webpack_stdout :: string
  webpack_code :: int
  JSON_parse :: "string \<Rightarrow> json option"

section \<open>Tables\<close>

text \<open>
  \<open>mktable\<close>: the rendered table, three blanks in front, and three blanks after every
  newline that a character other than a line terminator follows.
\<close>

fun indent_lines :: "string \<Rightarrow> string" where
  "indent_lines [] = []"
| "indent_lines [c] = [c]"
| "indent_lines (c # d # cs) =
     (if c = CHR 0x0A \<and> d \<noteq> CHR 0x0A \<and> d \<noteq> CHR 0x0D
      then c # ''   '' @ d # indent_lines cs
      else c # indent_lines (d # cs))"

definition mktable :: "platform \<Rightarrow> string list list \<Rightarrow> string" where
  "mktable pf data = ''   '' @ indent_lines (table_table pf data)"

section \<open>Pass 1: linting\<close>

text \<open>The variables of \<open>Pass1\<close> that \<open>doLint\<close> updates, and the effects so far.\<close>

record pass1_state =
  passed :: jsval
  filenames :: "(string \<times> string list) list"
  findings :: "finding list"
  rounds :: nat
  trace :: "effect list"

definition doLint ::
  "platform \<Rightarrow> collab \<Rightarrow> string \<Rightarrow> string \<Rightarrow> string \<Rightarrow> pass1_state \<Rightarrow> pass1_state" where
  "doLint pf c cx proc ext s =
     (let files = glob c (path_join pf [source pf, ''**'', ext]);
          reply = linter c proc files
      in s\<lparr> passed := bitand (passed s) (JSBool (flag reply)),
             filenames := AList.update cx files (filenames s),
             findings := findings s @ found reply,
             rounds := rounds s + 1,
             trace := trace s @ [Glob (path_join pf [source pf, ''**'', ext]), Lint proc files] \<rparr>)"

definition mkstat :: "pass1_state \<Rightarrow> string \<Rightarrow> string list" where
  "mkstat s cx =
     (let files = (case map_of (filenames s) cx of Some fs \<Rightarrow> length fs | None \<Rightarrow> 0);
          n = length (filter (\<lambda>f. ctx f = cx) (findings s))
      in [cx, show_nat files, show_nat n])"

definition Pass1 :: "platform \<Rightarrow> opts \<Rightarrow> collab \<Rightarrow> effect list \<times> jsval" where
  "Pass1 pf opt c =
     (let s0 = \<lparr> passed = JSBool True, filenames = [], findings = [], rounds = 0,
                 trace = [Stderr (''++ PASS 1: LINTING'' @ nl),
                          Stderr (''-- using configuration for '' @ env opt @ '' environment'' @ nl),
                          Stderr (''-- executing linters with Gemstone configuration'' @ nl)] \<rparr>;
          s1 = doLint pf c ''JS'' ''eslint'' ''*.js'' s0;
          s2 = doLint pf c ''HTML'' ''htmlhint'' ''*.html'' s1;
          s3 = doLint pf c ''CSS'' ''stylelint'' ''*.css'' s2;
          s4 = doLint pf c ''YAML'' ''jsyaml'' ''*.yaml'' s3;
          s5 = doLint pf c ''JSON'' ''jsonlint'' ''*.json'' s4;
          data = [[''Source Type'', ''Files'', ''Findings''],
                  mkstat s5 ''JS'', mkstat s5 ''HTML'', mkstat s5 ''CSS'',
                  mkstat s5 ''YAML'', mkstat s5 ''JSON'']
      in (trace s5 @ [Stderr (mktable pf data), Stderr nl] @ map Stderr (details c (findings s5)),
          passed s5))"

section \<open>Pass 2: bundling\<close>

definition wpcFile :: string where
  "wpcFile = ''.gemstone.webpack.js''"

definition show_bool :: "bool \<Rightarrow> string" where
  "show_bool b = (if b then ''true'' else ''false'')"

definition wpcData :: "platform \<Rightarrow> opts \<Rightarrow> string" where
  "wpcData pf opt =
     ''module.exports = require('' @ dq @ gwcFile pf @ dq @ '')({'' @ nl @
     ''    verbose: '' @ show_bool (verbose opt) @ '','' @ nl @
     ''    env: '' @ dq @ env opt @ dq @ '','' @ nl @
     ''    tag: '' @ dq @ tag opt @ dq @ nl @
     ''})'' @ nl"

text \<open>
  The promise around the bundler process. On \<open>close\<close> the configuration stub is deleted
  and the output parsed; when parsing throws, the message and the raw output go to the
  error stream and the promise is rejected with the raw output. The two calls of
  \<open>resolve\<close> that follow come after that rejection and change nothing: a promise settles
  once. Otherwise the promise resolves with the parsed value, whatever the exit code.
\<close>

definition spawn_webpack :: "platform \<Rightarrow> opts \<Rightarrow> collab \<Rightarrow> effect list \<times> (failure + json)" where
  "spawn_webpack pf opt c =
     (let wpOpts = [webpackCli pf, ''--config'', wpcFile, ''--json'']
                   @ (if debug opt then [''--debug''] else []);
          start = [Stderr (''-- executing bundler with Gemstone configuration'' @ nl),
                   Spawn (nodeExe pf) wpOpts,
                   Unlink wpcFile];
          out = webpack_stdout c
      in case JSON_parse c out of
           None \<Rightarrow>
             (start @ [Stderr (''ERROR: failed to parse JSON output of Webpack:'' @ nl @ out)],
              Inl (Raw out))
         | Some v \<Rightarrow>
             (if webpack_code c = 0 then (start, Inr v) else (start, Inr v)))"

definition report_stats :: "platform \<Rightarrow> stats \<Rightarrow> effect list" where
  "report_stats pf st =
     (if length (errors st) = 0
      then [Stderr (mktable pf ([''Entry'', ''Chunks'', ''Assets''] # entry_rows st)), Stderr nl]
      else []) @
     (if length (errors st) = 0
      then [Stderr (mktable pf ([''Chunk'', ''Parents'', ''Names'', ''Size'', ''Modules''] # chunk_rows st)),
            Stderr nl]
      else []) @
     (if length (errors st) = 0
      then [Stderr (mktable pf ([''Module'', ''Size'', ''Chunks'', ''Depth''] # module_rows st)),
            Stderr nl]
      else []) @
     (if length (errors st) > 0
      then [Stderr (''** ERROR: Webpack reported the following errors:'' @ nl),
            Stderr (join nl (errors st)), Stderr nl]
      else []) @
     (if length (warnings st) > 0
      then [Stderr (''** WARNING: Webpack reported the following warnings'' @ '':'' @ nl),
            Stderr (join nl (warnings st)), Stderr nl]
      else [])"

definition Pass2 :: "platform \<Rightarrow> opts \<Rightarrow> collab \<Rightarrow> effect list \<times> (failure + jsval)" where
  "Pass2 pf opt c =
     (let pre = [Stderr (''++ PASS 2: COMPILING'' @ nl),
                 Stderr (''-- using configuration for '' @ env opt @ '' environment'' @ nl),
                 WriteFile wpcFile (wpcData pf opt)];
          (spawned, settled) = spawn_webpack pf opt c
      in case settled of
           Inl e \<Rightarrow> (pre @ spawned, Inl e)
         | Inr NotStats \<Rightarrow> (pre @ spawned @ [Stderr nl], Inl TypeError)
         | Inr (Stats st) \<Rightarrow>
             (pre @ spawned @ [Stderr nl] @ report_stats pf st,
              Inr (JSBool (length (errors st) = 0 \<and> length (warnings st) = 0))))"

section \<open>One run of the two passes\<close>

text \<open>
  \<open>run_passes\<close> is \<open>singleRun\<close> up to the value of its variable \<open>passed\<close>; \<open>singleRun\<close>
  then beeps on request and ends without a \<open>return\<close> statement.
\<close>

definition run_passes :: "platform \<Rightarrow> opts \<Rightarrow> collab \<Rightarrow> effect list \<times> (failure + jsval)" where
  "run_passes pf opt c =
     (let (t1, p1) = Pass1 pf opt c
      in if truthy p1
         then (let (t2, p2) = Pass2 pf opt c in (t1 @ t2, p2))
         else (t1, Inr p1))"

definition singleRun :: "platform \<Rightarrow> opts \<Rightarrow> collab \<Rightarrow> effect list \<times> (failure + jsval)" where
  "singleRun pf opt c =
     (case run_passes pf opt c of
        (t, Inl e) \<Rightarrow> (t, Inl e)
      | (t, Inr p) \<Rightarrow>
          (t @ (if beep opt
                then (if truthy p then [BeepCount 1] else [BeepPattern [0, 100, 500]])
                else []),
           Inr JSUndefined))"

section \<open>The watch controller\<close>

text \<open>
  The six variables of the watch closure, and what the runtime holds for it: the clock
  (milliseconds), the active timeouts (handle and due time; every timeout of this
  program calls \<open>handler\<close>), the next fresh handle, the number of \<open>handler\<close>
  invocations suspended at \<open>await singleRun()\<close>, the rejections of \<open>handler\<close>
  invocations (nothing handles them; the runtime reports an unhandled rejection and goes
  on), and the effects so far. A delay is taken as written: the runtime's minimum of one
  millisecond for a delay of zero is left out.

  \<open>changed\<close> is a JavaScript object, created by \<open>{}\<close> and used as a set of paths:
  the list holds its own property keys in the order of their creation.
\<close>

record watcher =
  first :: bool
  ready :: bool
  need :: bool
  changed :: "string list"
  timer :: "nat option"
  running :: bool
  now :: nat
  timeouts :: "(nat \<times> nat) list"
  next_handle :: nat
  awaiting :: nat
  rejections :: "failure list"
  out :: "effect list"

definition setTimeout :: "nat \<Rightarrow> watcher \<Rightarrow> nat \<times> watcher" where
  "setTimeout delay s =
     (next_handle s,
      s\<lparr> timeouts := timeouts s @ [(next_handle s, now s + delay)],
         next_handle := next_handle s + 1 \<rparr>)"

definition clearTimeout :: "nat \<Rightarrow> watcher \<Rightarrow> watcher" where
  "clearTimeout h s = s\<lparr> timeouts := filter (\<lambda>(h', due). h' \<noteq> h) (timeouts s) \<rparr>"

text \<open>
  \<open>changed[path] = true\<close>. The key \<open>__proto__\<close> names the prototype accessor that the
  object inherits: assigning \<open>true\<close> to it creates no property and changes nothing. Any
  other key becomes an own property, once.
\<close>

definition set_key :: "string \<Rightarrow> string list \<Rightarrow> string list" where
  "set_key k ks =
     (if k = ''__proto__'' then ks
      else if k \<in> set ks then ks
      else ks @ [k])"

text \<open>
  \<open>Object.keys\<close>: first the keys that are array indices (the decimal numeral, without
  leading zero, of a number below \<open>2^32 - 1\<close>) in ascending numeric order, then the other
  keys in the order of their creation.
\<close>

definition digit_of :: "char \<Rightarrow> nat option" where
  "digit_of c =
     (let n = (of_char c :: nat)
      in if 48 \<le> n \<and> n \<le> 57 then Some (n - 48) else None)"

fun decimal :: "string \<Rightarrow> nat \<Rightarrow> nat option" where
  "decimal [] acc = Some acc"
| "decimal (c # cs) acc =
     (case digit_of c of None \<Rightarrow> None | Some d \<Rightarrow> decimal cs (10 * acc + d))"

definition array_index :: "string \<Rightarrow> nat option" where
  "array_index k =
     (case k of
        [] \<Rightarrow> None
      | c # cs \<Rightarrow>
          if c = CHR ''0'' \<and> cs \<noteq> [] then None
          else (case decimal k 0 of
                  None \<Rightarrow> None
                | Some n \<Rightarrow> if n < 2 ^ 32 - 1 then Some n else None))"

definition index_rank :: "string \<Rightarrow> nat" where
  "index_rank k = (case array_index k of Some n \<Rightarrow> n | None \<Rightarrow> 0)"

definition Object_keys :: "string list \<Rightarrow> string list" where
  "Object_keys ks =
     sort_key index_rank (filter (\<lambda>k. array_index k \<noteq> None) ks) @
     filter (\<lambda>k. array_index k = None) ks"

definition watch_start :: watcher where
  "watch_start =
     \<lparr> first = True, ready = False, need = False, changed = [], timer = None,
       running = False, now = 0, timeouts = [], next_handle = 0, awaiting = 0,
       rejections = [], out = [] \<rparr>"

text \<open>\<open>watcher.on("ready", ...)\<close>\<close>

definition watcher_ready :: "watcher \<Rightarrow> watcher" where
  "watcher_ready s =
     (let (h, s1) = setTimeout 0 s
      in s1\<lparr> timer := Some h, ready := True \<rparr>)"

text \<open>\<open>watcher.on("all", (ev, path) => ...)\<close>\<close>

definition watcher_all :: "string \<Rightarrow> string \<Rightarrow> watcher \<Rightarrow> watcher" where
  "watcher_all ev path s =
     (if ready s then
        (let s1 = s\<lparr> need := True, changed := set_key path (changed s) \<rparr>
         in if \<not> running s1 then
              (let s2 = (case timer s1 of None \<Rightarrow> s1 | Some h \<Rightarrow> clearTimeout h s1);
                   (h, s3) = setTimeout 1000 s2
               in s3\<lparr> timer := Some h \<rparr>)
            else s1)
      else s)"

text \<open>The "files changed" summary that \<open>handler\<close> writes when \<open>first\<close> is false.\<close>

definition summary :: "platform \<Rightarrow> string list \<Rightarrow> effect list" where
  "summary pf keys =
     [Stderr ([CHR 0x0D] @ replicate 61 CHR '' '' @ [CHR 0x0D]),
      Stderr (''-- files changed: '' @ show_nat (length keys) @ nl @ nl)] @
     map (\<lambda>filename. Stderr (''   '' @ relative pf filename @ nl)) keys @
     [Stderr nl,
      Stderr (''== '' @ replicate 73 CHR ''='' @ '' =='' @ nl),
      Stderr nl]"

definition idle_banner :: effect where
  "idle_banner =
     Stderr (''## IDLE: WATCHER'' @ nl @
             ''   files changed: [WAITING FOR FILESYSTEM CHANGES] '')"

text \<open>
  \<open>handler\<close> up to its \<open>await\<close>: from \<open>running = true\<close> to the call of \<open>singleRun\<close>,
  which leaves the invocation suspended.
\<close>

definition handler_begin :: "platform \<Rightarrow> watcher \<Rightarrow> watcher" where
  "handler_begin pf s =
     (let s1 = s\<lparr> running := True \<rparr>;
          s2 = (if \<not> first s1
                then s1\<lparr> out := out s1 @ summary pf (Object_keys (changed s1)) \<rparr>
                else s1)
      in s2\<lparr> first := False, need := False, changed := [], awaiting := awaiting s2 + 1 \<rparr>)"

text \<open>\<open>handler\<close> after its \<open>await\<close>, once \<open>singleRun\<close> has resolved.\<close>

definition handler_resume :: "watcher \<Rightarrow> watcher" where
  "handler_resume s =
     (let s1 = s\<lparr> out := out s @ [idle_banner] \<rparr>;
          s2 = s1\<lparr> running := False \<rparr>
      in if need s2 then
           (let s3 = (case timer s2 of None \<Rightarrow> s2 | Some h \<Rightarrow> clearTimeout h s2);
                (h, s4) = setTimeout 0 s3
            in s4\<lparr> timer := Some h \<rparr>)
         else s2)"

text \<open>
  What can happen to the watch loop, each with its time: the watcher's \<open>ready\<close> event
  (the watcher emits it once), an \<open>all\<close> event with its kind and path, an active timeout
  that is due firing (the runtime drops it from the active ones and calls \<open>handler\<close>),
  and the run of a suspended \<open>handler\<close> invocation settling, with the collaborators'
  behaviour during that run. The effects of a run are appended when it
  settles; nothing else writes between its start and its end.
\<close>

datatype event =
    Ready nat
  | All nat string string
  | Fire nat nat
  | Settle nat collab

fun time_of :: "event \<Rightarrow> nat" where
  "time_of (Ready t) = t"
| "time_of (All t ev path) = t"
| "time_of (Fire t h) = t"
| "time_of (Settle t c) = t"

fun react :: "platform \<Rightarrow> opts \<Rightarrow> event \<Rightarrow> watcher \<Rightarrow> watcher option" where
  "react pf opt (Ready t) s =
     (if ready s then None else Some (watcher_ready s))"
| "react pf opt (All t ev path) s = Some (watcher_all ev path s)"
| "react pf opt (Fire t h) s =
     (case map_of (timeouts s) h of
        None \<Rightarrow> None
      | Some due \<Rightarrow>
          if t < due then None
          else Some (handler_begin pf (clearTimeout h s)))"
| "react pf opt (Settle t c) s =
     (if awaiting s = 0 then None
      else case singleRun pf opt c of
             (effs, Inl e) \<Rightarrow>
               Some (s\<lparr> awaiting := awaiting s - 1, out := out s @ effs,
                        rejections := rejections s @ [e] \<rparr>)
           | (effs, Inr v) \<Rightarrow>
               Some (handler_resume (s\<lparr> awaiting := awaiting s - 1, out := out s @ effs \<rparr>)))"

text \<open>One event: the clock never runs backwards.\<close>

definition step :: "platform \<Rightarrow> opts \<Rightarrow> event \<Rightarrow> watcher \<Rightarrow> watcher option" where
  "step pf opt e s =
     (if time_of e < now s then None else react pf opt e (s\<lparr> now := time_of e \<rparr>))"

fun exec :: "platform \<Rightarrow> opts \<Rightarrow> event list \<Rightarrow> watcher \<Rightarrow> watcher option" where
  "exec pf opt [] s = Some s"
| "exec pf opt (e # es) s =
     (case step pf opt e s of None \<Rightarrow> None | Some s' \<Rightarrow> exec pf opt es s')"

section \<open>The command\<close>

text \<open>
  \<open>opts.env.match(/^(?:production|development)$/)\<close>: from the start of the string one of
  the two words matches, and the string ends there.
\<close>

definition env_match :: "string \<Rightarrow> bool" where
  "env_match e =
     list_ex (\<lambda>word. take (length word) e = word \<and> drop (length word) e = [])
       [''production'', ''development'']"

definition header :: "platform \<Rightarrow> string" where
  "header pf =
     ''** Gemstone Frontend Build Tool '' @ version pf @ nl @
     ''** Copyright (c) 2016-2017 Gemstone Project <http://gemstonejs.com>'' @ nl @
     ''** Licensed under Apache License 2.0 <https://spdx.org/licenses/Apache-2.0>'' @ nl @
     nl"

text \<open>
  How a call of the command ends: it throws (or its promise is rejected), it returns a
  string, or, in watch mode, its promise stays pending over the watch loop.
\<close>

datatype outcome = Thrown failure | Returned string | Pending watcher

definition func :: "platform \<Rightarrow> opts \<Rightarrow> collab \<Rightarrow> effect list \<times> outcome" where
  "func pf opt c =
     (if \<not> env_match (env opt)
      then ([], Thrown (Error (''invalid environment '' @ dq @ env opt @ dq)))
      else
        (let pre = [Stderr (header pf)] @ (if cwd opt \<noteq> ''.'' then [Chdir (cwd opt)] else [])
         in if watch opt
            then (pre @ [Watch (source pf)], Pending watch_start)
            else (case singleRun pf opt c of
                    (t, Inl e) \<Rightarrow> (pre @ t, Thrown e)
                  | (t, Inr v) \<Rightarrow> (pre @ t, Returned [])))) "

section \<open>Vocabulary of the properties\<close>

fun is_Lint :: "effect \<Rightarrow> bool" where
  "is_Lint (Lint proc files) = True"
| "is_Lint _ = False"

text \<open>The files a category's linter is given, and the flag it answers with.\<close>

definition lint_files :: "platform \<Rightarrow> collab \<Rightarrow> string \<Rightarrow> string list" where
  "lint_files pf c ext = glob c (path_join pf [source pf, ''**'', ext])"

definition lint_flag :: "platform \<Rightarrow> collab \<Rightarrow> string \<Rightarrow> string \<Rightarrow> bool" where
  "lint_flag pf c proc ext = flag (linter c proc (lint_files pf c ext))"

text \<open>Every one of the five categories passes.\<close>

definition lint_ok :: "platform \<Rightarrow> collab \<Rightarrow> bool" where
  "lint_ok pf c =
     (lint_flag pf c ''eslint'' ''*.js'' \<and> lint_flag pf c ''htmlhint'' ''*.html'' \<and>
      lint_flag pf c ''stylelint'' ''*.css'' \<and> lint_flag pf c ''jsyaml'' ''*.yaml'' \<and>
      lint_flag pf c ''jsonlint'' ''*.json'')"

text \<open>The findings a category's linter reports, and no category reporting any.\<close>

definition lint_found :: "platform \<Rightarrow> collab \<Rightarrow> string \<Rightarrow> string \<Rightarrow> finding list" where
  "lint_found pf c proc ext = found (linter c proc (lint_files pf c ext))"

definition zero_findings :: "platform \<Rightarrow> collab \<Rightarrow> bool" where
  "zero_findings pf c =
     (lint_found pf c ''eslint'' ''*.js'' = [] \<and> lint_found pf c ''htmlhint'' ''*.html'' = [] \<and>
      lint_found pf c ''stylelint'' ''*.css'' = [] \<and> lint_found pf c ''jsyaml'' ''*.yaml'' = [] \<and>
      lint_found pf c ''jsonlint'' ''*.json'' = [])"

text \<open>
  Modelled from the spec: the five linter packages are not among the sources. A linter
  produces a pass/fail flag and a collection of findings, and findings make it fail: its
  flag is a pass exactly when it reports no finding.
\<close>

definition linter_contract :: "platform \<Rightarrow> collab \<Rightarrow> bool" where
  "linter_contract pf c =
     (lint_flag pf c ''eslint'' ''*.js'' = (lint_found pf c ''eslint'' ''*.js'' = []) \<and>
      lint_flag pf c ''htmlhint'' ''*.html'' = (lint_found pf c ''htmlhint'' ''*.html'' = []) \<and>
      lint_flag pf c ''stylelint'' ''*.css'' = (lint_found pf c ''stylelint'' ''*.css'' = []) \<and>
      lint_flag pf c ''jsyaml'' ''*.yaml'' = (lint_found pf c ''jsyaml'' ''*.yaml'' = []) \<and>
      lint_flag pf c ''jsonlint'' ''*.json'' = (lint_found pf c ''jsonlint'' ''*.json'' = []))"

text \<open>A pass/fail as the number \<open>&\<close> leaves: 1 or 0.\<close>

definition verdict :: "bool \<Rightarrow> jsval" where
  "verdict b = JSNum (if b then 1 else 0)"

text \<open>What only the bundling pass does, and the two ways the run beeps.\<close>

fun is_bundler :: "effect \<Rightarrow> bool" where
  "is_bundler (WriteFile name text) = True"
| "is_bundler (Spawn exe args) = True"
| "is_bundler (Unlink name) = True"
| "is_bundler _ = False"

fun is_beep :: "effect \<Rightarrow> bool" where
  "is_beep (BeepCount n) = True"
| "is_beep (BeepPattern ns) = True"
| "is_beep _ = False"

text \<open>The bundler's output parses to a report with no error and no warning.\<close>

definition bundle_ok :: "collab \<Rightarrow> bool" where
  "bundle_ok c =
     (case JSON_parse c (webpack_stdout c) of
        Some (Stats st) \<Rightarrow> length (errors st) = 0 \<and> length (warnings st) = 0
      | _ \<Rightarrow> False)"

fun is_All :: "event \<Rightarrow> bool" where
  "is_All (All t ev path) = True"
| "is_All _ = False"


text \<open>
  Events that each come less than the settle delay of 1000 ms after the one before:
  \<open>settle_from t\<close> with \<open>t\<close> the time of the event before the list.
\<close>

fun settle_from :: "nat \<Rightarrow> event list \<Rightarrow> bool" where
  "settle_from t [] = True"
| "settle_from t (e # es) = (time_of e < t + 1000 \<and> settle_from (time_of e) es)"

fun within_settle :: "event list \<Rightarrow> bool" where
  "within_settle [] = True"
| "within_settle (e # es) = settle_from (time_of e) es"

text \<open>The paths that \<open>changed[path] = true\<close> records: every path but \<open>__proto__\<close>.\<close>

definition recordable :: "string \<Rightarrow> bool" where
  "recordable path = (path \<noteq> ''__proto__'')"

text \<open>The paths of the change events of a list.\<close>

fun changes :: "event list \<Rightarrow> string list" where
  "changes [] = []"
| "changes (All t ev path # es) = path # changes es"
| "changes (e # es) = changes es"


text \<open>
  What holds of the watch loop in every state it reaches: at most one invocation of
  \<open>handler\<close> is suspended, and then \<open>running\<close> is set; no timeout is active during a
  run; an active timeout is the only one and \<open>timer\<close> holds it; before the watcher is
  ready nothing has happened; as long as no run was rejected, \<open>running\<close> is set only
  with a suspended invocation; the keys of \<open>changed\<close> are distinct.
\<close>

definition loop_inv :: "watcher \<Rightarrow> bool" where
  "loop_inv s =
     (awaiting s \<le> 1 \<and>
      (awaiting s = 1 \<longrightarrow> running s) \<and>
      (running s \<longrightarrow> timeouts s = []) \<and>
      (timeouts s = [] \<or> (\<exists>h due. timeouts s = [(h, due)] \<and> timer s = Some h)) \<and>
      (\<not> ready s \<longrightarrow> timeouts s = [] \<and> \<not> running s \<and> first s) \<and>
      (rejections s = [] \<and> running s \<longrightarrow> awaiting s = 1) \<and>
      distinct (changed s))"

section \<open>Sample inputs\<close>

definition demo_platform :: platform where
  "demo_platform =
     \<lparr> version = ''0.9.19'', nodeExe = ''/usr/bin/node'', webpackCli = ''webpack.js'',
       gwcFile = ''gemstone-config-webpack.js'', source = ''src'', path_join = join ''/'',
       table_table = (\<lambda>rows. concat (map (\<lambda>row. join '' '' row @ nl) rows)),
       relative = (\<lambda>p. p) \<rparr>"

definition demo_opts :: opts where
  "demo_opts =
     \<lparr> cwd = ''.'', debug = False, verbose = False, watch = True, beep = True,
       server = False, env = ''development'', tag = [] \<rparr>"

definition clean_report :: stats where
  "clean_report =
     \<lparr> errors = [], warnings = [], entry_rows = [], chunk_rows = [], module_rows = [] \<rparr>"

text \<open>
  The text of a bundler report without entries, errors or warnings, and \<open>JSON.parse\<close> on
  the texts the samples use: that report, the empty object (a value without \<open>errors\<close>
  and \<open>warnings\<close>), and texts that are not JSON.
\<close>

definition clean_json :: string where
  "clean_json =
     ''{'' @ dq @ ''errors'' @ dq @ '':[],'' @ dq @ ''warnings'' @ dq @ '':[],'' @
     dq @ ''entrypoints'' @ dq @ '':{},'' @ dq @ ''chunks'' @ dq @ '':[],'' @
     dq @ ''modules'' @ dq @ '':[]}''"

definition demo_parse :: "string \<Rightarrow> json option" where
  "demo_parse text =
     (if text = clean_json then Some (Stats clean_report)
      else if text = ''{}'' then Some NotStats
      else None)"

text \<open>
  One script file; every linter passes without a finding and the bundler prints the
  clean report.
\<close>

definition all_pass :: collab where
  "all_pass =
     \<lparr> glob = (\<lambda>pattern. if pattern = ''src/**/*.js'' then [''src/app.js''] else []),
       linter = (\<lambda>proc files. \<lparr> flag = True, found = [] \<rparr>),
       details = map (\<lambda>f. ''ERROR: file '' @ filename f @ nl),
       webpack_stdout = clean_json,
       webpack_code = 0,
       JSON_parse = demo_parse \<rparr>"

text \<open>The bundler prints a plain message instead of JSON.\<close>

definition garbled :: collab where
  "garbled = all_pass\<lparr> webpack_stdout := ''Error: Cannot find module'', webpack_code := 1 \<rparr>"

text \<open>The script linter reports one finding and fails, the other four pass.\<close>

definition console_finding :: finding where
  "console_finding =
     \<lparr> ctx = ''JS'', filename = ''src/app.js'', line = 3, column = 7,
       message = ''Unexpected console statement'', ruleProc = ''eslint'',
       ruleId = ''no-console'' \<rparr>"

definition js_finding :: collab where
  "js_finding =
     all_pass\<lparr> linter := (\<lambda>proc files.
        if proc = ''eslint'' then \<lparr> flag = False, found = [console_finding] \<rparr>
        else \<lparr> flag = True, found = [] \<rparr>) \<rparr>"

text \<open>The watcher becomes ready and the first timeout fires: the first run starts.\<close>

definition first_run :: "event list" where
  "first_run = [Ready 0, Fire 0 0]"

definition demo_burst :: "event list" where
  "demo_burst =
     [All 10 ''change'' ''src/app.js'', All 500 ''add'' ''src/view.html'',
      All 1400 ''change'' ''src/app.js'']"

section \<open>Pass 1\<close>

lemma bitand_true: "bitand (JSBool True) (JSBool b) = verdict b"
  by (simp add: bitand_def verdict_def)

lemma bitand_verdict: "bitand (verdict a) (JSBool b) = verdict (a \<and> b)"
  by (simp add: bitand_def verdict_def)

lemma doLint_passed:
  "passed (doLint pf c cx proc ext s) = bitand (passed s) (JSBool (lint_flag pf c proc ext))"
  by (simp add: doLint_def Let_def lint_flag_def lint_files_def)

lemma doLint_trace:
  "trace (doLint pf c cx proc ext s) =
     trace s @ [Glob (path_join pf [source pf, ''**'', ext]), Lint proc (lint_files pf c ext)]"
  by (simp add: doLint_def Let_def lint_files_def)

lemma Pass1_passed: "snd (Pass1 pf opt c) = verdict (lint_ok pf c)"
  unfolding Pass1_def Let_def snd_conv doLint_passed lint_ok_def
  by (simp only: pass1_state.simps bitand_true bitand_verdict conj_assoc)

lemma Pass1_lints:
  "filter is_Lint (fst (Pass1 pf opt c)) =
     [Lint ''eslint'' (lint_files pf c ''*.js''), Lint ''htmlhint'' (lint_files pf c ''*.html''),
      Lint ''stylelint'' (lint_files pf c ''*.css''), Lint ''jsyaml'' (lint_files pf c ''*.yaml''),
      Lint ''jsonlint'' (lint_files pf c ''*.json'')]"
  unfolding Pass1_def Let_def fst_conv doLint_trace
  by (simp add: comp_def)

text \<open>
  C6. Whatever the linters answer, a lint pass calls all five of them, in the order
  JS, HTML, CSS, YAML, JSON, each once; its result is the bitwise AND of the five flags
  as 0/1 values, which is 1 exactly when all five flags are true.
\<close>

theorem lint_pass_runs_all_categories:
  "filter is_Lint (fst (Pass1 pf opt c)) =
     [Lint ''eslint'' (lint_files pf c ''*.js''), Lint ''htmlhint'' (lint_files pf c ''*.html''),
      Lint ''stylelint'' (lint_files pf c ''*.css''), Lint ''jsyaml'' (lint_files pf c ''*.yaml''),
      Lint ''jsonlint'' (lint_files pf c ''*.json'')] \<and>
   snd (Pass1 pf opt c) =
     JSNum (1 AND (if lint_flag pf c ''eslint'' ''*.js'' then 1 else 0)
              AND (if lint_flag pf c ''htmlhint'' ''*.html'' then 1 else 0)
              AND (if lint_flag pf c ''stylelint'' ''*.css'' then 1 else 0)
              AND (if lint_flag pf c ''jsyaml'' ''*.yaml'' then 1 else 0)
              AND (if lint_flag pf c ''jsonlint'' ''*.json'' then 1 else 0)) \<and>
   truthy (snd (Pass1 pf opt c)) = lint_ok pf c"
proof -
  have "snd (Pass1 pf opt c) =
     JSNum (1 AND (if lint_flag pf c ''eslint'' ''*.js'' then 1 else 0)
              AND (if lint_flag pf c ''htmlhint'' ''*.html'' then 1 else 0)
              AND (if lint_flag pf c ''stylelint'' ''*.css'' then 1 else 0)
              AND (if lint_flag pf c ''jsyaml'' ''*.yaml'' then 1 else 0)
              AND (if lint_flag pf c ''jsonlint'' ''*.json'' then 1 else 0))"
    unfolding Pass1_passed verdict_def lint_ok_def by simp
  moreover have "truthy (snd (Pass1 pf opt c)) = lint_ok pf c"
    unfolding Pass1_passed verdict_def by simp
  ultimately show ?thesis
    using Pass1_lints by simp
qed

section \<open>Pass 2 and one run\<close>

lemma Pass2_result:
  "snd (Pass2 pf opt c) =
     (case JSON_parse c (webpack_stdout c) of
        None \<Rightarrow> Inl (Raw (webpack_stdout c))
      | Some NotStats \<Rightarrow> Inl TypeError
      | Some (Stats st) \<Rightarrow> Inr (JSBool (length (errors st) = 0 \<and> length (warnings st) = 0)))"
  by (simp add: Pass2_def spawn_webpack_def Let_def split: option.splits json.splits)

lemma Pass2_parse_error:
  "JSON_parse c (webpack_stdout c) = None \<Longrightarrow>
   fst (Pass2 pf opt c) =
     [Stderr (''++ PASS 2: COMPILING'' @ nl),
      Stderr (''-- using configuration for '' @ env opt @ '' environment'' @ nl),
      WriteFile wpcFile (wpcData pf opt),
      Stderr (''-- executing bundler with Gemstone configuration'' @ nl),
      Spawn (nodeExe pf) ([webpackCli pf, ''--config'', wpcFile, ''--json'']
                          @ (if debug opt then [''--debug''] else [])),
      Unlink wpcFile,
      Stderr (''ERROR: failed to parse JSON output of Webpack:'' @ nl @ webpack_stdout c)]"
  by (simp add: Pass2_def spawn_webpack_def Let_def)

lemma Pass2_no_beep: "filter is_beep (fst (Pass2 pf opt c)) = []"
  by (simp add: Pass2_def spawn_webpack_def report_stats_def Let_def
      split: option.splits json.splits)

lemma Pass1_no_bundler: "filter is_bundler (fst (Pass1 pf opt c)) = []"
  unfolding Pass1_def Let_def fst_conv doLint_trace
  by (simp add: comp_def)

lemma Pass1_no_beep: "filter is_beep (fst (Pass1 pf opt c)) = []"
  unfolding Pass1_def Let_def fst_conv doLint_trace
  by (simp add: comp_def)

lemma run_passes_result:
  "snd (run_passes pf opt c) = (if lint_ok pf c then snd (Pass2 pf opt c) else Inr (JSNum 0))"
  using Pass1_passed [of pf opt c]
  by (simp add: run_passes_def case_prod_beta verdict_def)

lemma run_passes_effects:
  "fst (run_passes pf opt c) =
     (if lint_ok pf c then fst (Pass1 pf opt c) @ fst (Pass2 pf opt c) else fst (Pass1 pf opt c))"
  using Pass1_passed [of pf opt c]
  by (simp add: run_passes_def case_prod_beta verdict_def)

lemma run_passes_no_beep: "filter is_beep (fst (run_passes pf opt c)) = []"
  by (simp add: run_passes_effects Pass1_no_beep Pass2_no_beep)

lemma singleRun_result:
  "snd (singleRun pf opt c) =
     (case snd (run_passes pf opt c) of Inl e \<Rightarrow> Inl e | Inr p \<Rightarrow> Inr JSUndefined)"
  by (simp add: singleRun_def split: prod.splits sum.splits)

lemma singleRun_effects:
  "fst (singleRun pf opt c) =
     fst (run_passes pf opt c) @
     (case snd (run_passes pf opt c) of
        Inl e \<Rightarrow> []
      | Inr p \<Rightarrow> if beep opt
                then (if truthy p then [BeepCount 1] else [BeepPattern [0, 100, 500]])
                else [])"
  by (simp add: singleRun_def split: prod.splits sum.splits)

lemma passed_truthy:
  "(\<exists>p. snd (run_passes pf opt c) = Inr p \<and> truthy p) = (lint_ok pf c \<and> bundle_ok c)"
  by (auto simp: run_passes_result Pass2_result bundle_ok_def split: option.splits json.splits)

lemma singleRun_rejects:
  assumes "lint_ok pf c" "JSON_parse c (webpack_stdout c) = None"
  shows "snd (singleRun pf opt c) = Inl (Raw (webpack_stdout c))"
  using assms by (simp add: singleRun_result run_passes_result Pass2_result)

lemma singleRun_rejects_last:
  assumes "lint_ok pf c" "JSON_parse c (webpack_stdout c) = None"
  shows "last (fst (singleRun pf opt c)) =
           Stderr (''ERROR: failed to parse JSON output of Webpack:'' @ nl @ webpack_stdout c)"
  using assms
  by (simp add: singleRun_effects run_passes_effects run_passes_result Pass2_result
      Pass2_parse_error)

lemma singleRun_no_Error: "snd (singleRun pf opt c) \<noteq> Inl (Error msg)"
  by (simp add: singleRun_result run_passes_result Pass2_result
      split: sum.splits option.splits json.splits)

subsection \<open>The sample inputs\<close>

lemma demo_parse_clean: "demo_parse clean_json = Some (Stats clean_report)"
  by (simp add: demo_parse_def)

lemma demo_parse_message: "demo_parse ''Error: Cannot find module'' = None"
  by (simp add: demo_parse_def clean_json_def dq_def)

lemma all_pass_lint_ok: "lint_ok demo_platform all_pass"
  by (simp add: lint_ok_def lint_flag_def all_pass_def)

lemma garbled_lint_ok: "lint_ok demo_platform garbled"
  by (simp add: lint_ok_def lint_flag_def all_pass_def garbled_def)

lemma garbled_parse: "JSON_parse garbled (webpack_stdout garbled) = None"
  by (simp add: all_pass_def garbled_def demo_parse_message)

lemma garbled_stdout: "webpack_stdout garbled = ''Error: Cannot find module''"
  by (simp add: garbled_def)

lemma all_pass_bundle_ok: "bundle_ok all_pass"
  by (simp add: bundle_ok_def all_pass_def demo_parse_clean clean_report_def)

lemma all_pass_parse: "JSON_parse all_pass (webpack_stdout all_pass) = Some (Stats clean_report)"
  by (simp add: all_pass_def demo_parse_clean)

lemma all_pass_resolves: "snd (singleRun demo_platform opt all_pass) = Inr JSUndefined"
  using all_pass_lint_ok
  by (simp add: singleRun_result run_passes_result Pass2_result all_pass_parse)

subsection \<open>The result of a run\<close>

lemma contract_lint_ok: "linter_contract pf c \<Longrightarrow> lint_ok pf c = zero_findings pf c"
  by (simp add: linter_contract_def lint_ok_def zero_findings_def)

lemma all_pass_contract: "linter_contract demo_platform all_pass"
  by (simp add: linter_contract_def lint_flag_def lint_found_def all_pass_def)

lemma all_pass_zero_findings: "zero_findings demo_platform all_pass"
  by (simp add: zero_findings_def lint_found_def all_pass_def)

lemma js_finding_contract: "linter_contract demo_platform js_finding"
  by (simp add: linter_contract_def lint_flag_def lint_found_def js_finding_def all_pass_def)

lemma js_finding_fails: "\<not> lint_ok demo_platform js_finding"
  by (simp add: lint_ok_def lint_flag_def js_finding_def all_pass_def)

text \<open>
  C2, as the code has it. One invocation of \<open>singleRun\<close> returns no boolean: it resolves
  with \<open>undefined\<close> or is rejected. The pass/fail it computes is the value of its variable
  \<open>passed\<close> after the passes, which chooses the beep. That value is truthy if and only if
  every lint category passes and the bundler reports zero errors and zero warnings; with
  linters that pass exactly when they report no finding, if and only if every lint
  category reports zero findings and the bundler reports zero errors and zero warnings.
  With the \<open>beep\<close> option the run ends on the single beep exactly then.
\<close>

theorem passed_flag_iff_all_clean:
  "(\<exists>p. snd (run_passes pf opt c) = Inr p \<and> truthy p) = (lint_ok pf c \<and> bundle_ok c) \<and>
   (linter_contract pf c \<longrightarrow>
      (\<exists>p. snd (run_passes pf opt c) = Inr p \<and> truthy p) = (zero_findings pf c \<and> bundle_ok c)) \<and>
   (filter is_beep (fst (singleRun pf opt c)) = [BeepCount 1])
     = (beep opt \<and> lint_ok pf c \<and> bundle_ok c) \<and>
   (\<forall>b. snd (singleRun pf opt c) \<noteq> Inr (JSBool b))"
proof -
  have beeps: "(filter is_beep (fst (singleRun pf opt c)) = [BeepCount 1]) =
      (beep opt \<and> (\<exists>p. snd (run_passes pf opt c) = Inr p \<and> truthy p))"
    by (auto simp: singleRun_effects run_passes_no_beep split: sum.splits)
  have never: "\<forall>b. snd (singleRun pf opt c) \<noteq> Inr (JSBool b)"
    by (simp add: singleRun_result split: sum.splits)
  have findings: "linter_contract pf c \<longrightarrow>
      (\<exists>p. snd (run_passes pf opt c) = Inr p \<and> truthy p) = (zero_findings pf c \<and> bundle_ok c)"
    using passed_truthy [of pf opt c] contract_lint_ok [of pf c] by simp
  show ?thesis
    using beeps never findings passed_truthy [of pf opt c] by simp
qed

theorem passed_flag_iff_all_clean_witness:
  "linter_contract demo_platform all_pass \<and> zero_findings demo_platform all_pass \<and>
   bundle_ok all_pass \<and>
   (\<exists>p. snd (run_passes demo_platform demo_opts all_pass) = Inr p \<and> truthy p) \<and>
   filter is_beep (fst (singleRun demo_platform demo_opts all_pass)) = [BeepCount 1] \<and>
   linter_contract demo_platform js_finding \<and> \<not> zero_findings demo_platform js_finding \<and>
   (\<nexists>p. snd (run_passes demo_platform demo_opts js_finding) = Inr p \<and> truthy p)"
proof -
  have b: "beep demo_opts"
    by (simp add: demo_opts_def)
  have nz: "\<not> zero_findings demo_platform js_finding"
    using contract_lint_ok [OF js_finding_contract] js_finding_fails by simp
  show ?thesis
    using passed_flag_iff_all_clean [of demo_platform demo_opts all_pass]
      passed_flag_iff_all_clean [of demo_platform demo_opts js_finding]
      all_pass_contract all_pass_zero_findings all_pass_bundle_ok all_pass_lint_ok
      js_finding_contract js_finding_fails nz b
    by simp
qed

text \<open>
  C2 as stated fails: with one script file, no finding in any category and the bundler's
  report without errors or warnings, the run does not return \<open>true\<close>; it returns
  \<open>undefined\<close>.
\<close>

theorem singleRun_returns_undefined:
  "zero_findings demo_platform all_pass \<and> lint_ok demo_platform all_pass \<and>
   JSON_parse all_pass (webpack_stdout all_pass) = Some (Stats clean_report) \<and>
   bundle_ok all_pass \<and>
   snd (singleRun demo_platform demo_opts all_pass) = Inr JSUndefined \<and>
   snd (singleRun demo_platform demo_opts all_pass) \<noteq> Inr (JSBool True)"
  using all_pass_zero_findings all_pass_lint_ok all_pass_parse all_pass_bundle_ok
    all_pass_resolves [of demo_opts]
  by simp

text \<open>
  C7, as the code has it. When the lint pass fails, the variable \<open>passed\<close> of the run ends
  as the failure value, the number 0; the run's effects are those of the lint pass alone,
  followed by the failure beep if beeps are on: nothing of Pass 2 happens, no
  configuration stub is written and no process spawned. The run itself returns no
  failure: it resolves with \<open>undefined\<close>.
\<close>

theorem failed_lint_skips_bundler:
  "\<not> lint_ok pf c \<Longrightarrow>
     snd (run_passes pf opt c) = Inr (JSNum 0) \<and>
     fst (run_passes pf opt c) = fst (Pass1 pf opt c) \<and>
     filter is_bundler (fst (singleRun pf opt c)) = [] \<and>
     filter is_beep (fst (singleRun pf opt c))
       = (if beep opt then [BeepPattern [0, 100, 500]] else []) \<and>
     snd (singleRun pf opt c) = Inr JSUndefined"
  by (simp add: run_passes_result run_passes_effects singleRun_result singleRun_effects
      Pass1_no_bundler Pass1_no_beep)

theorem failed_lint_skips_bundler_witness:
  "\<not> lint_ok demo_platform js_finding \<and>
   snd (run_passes demo_platform demo_opts js_finding) = Inr (JSNum 0) \<and>
   filter is_bundler (fst (singleRun demo_platform demo_opts js_finding)) = [] \<and>
   filter is_beep (fst (singleRun demo_platform demo_opts js_finding)) = [BeepPattern [0, 100, 500]]"
  using failed_lint_skips_bundler [OF js_finding_fails, of demo_opts] js_finding_fails
  by (simp add: demo_opts_def)

text \<open>
  C7 as stated fails: with a finding of the script linter the run does not return
  failure. It returns \<open>undefined\<close>, the very value a run returns in which every category
  is clean and the bundler reports no error and no warning.
\<close>

theorem failed_lint_returns_what_clean_run_returns:
  "\<not> lint_ok demo_platform js_finding \<and> \<not> zero_findings demo_platform js_finding \<and>
   snd (singleRun demo_platform demo_opts js_finding) = Inr JSUndefined \<and>
   lint_ok demo_platform all_pass \<and> bundle_ok all_pass \<and>
   snd (singleRun demo_platform demo_opts all_pass) = Inr JSUndefined \<and>
   snd (singleRun demo_platform demo_opts js_finding) \<noteq> Inr (JSBool False)"
proof -
  have nz: "\<not> zero_findings demo_platform js_finding"
    using contract_lint_ok [OF js_finding_contract] js_finding_fails by simp
  have u: "snd (singleRun demo_platform demo_opts js_finding) = Inr JSUndefined"
    using js_finding_fails by (simp add: singleRun_result run_passes_result)
  show ?thesis
    using nz u js_finding_fails all_pass_lint_ok all_pass_bundle_ok all_pass_resolves [of demo_opts]
    by simp
qed

section \<open>The command's validation\<close>

lemma env_match_iff: "env_match e = (e = ''production'' \<or> e = ''development'')"
proof -
  have "\<And>w. (take (length w) e = w \<and> drop (length w) e = []) = (e = w)"
    by (metis append_Nil2 append_take_drop_id drop_all order_refl take_all)
  then show ?thesis
    unfolding env_match_def by simp
qed

lemma func_invalid:
  "\<not> env_match (env opt) \<Longrightarrow>
   func pf opt c = ([], Thrown (Error (''invalid environment '' @ dq @ env opt @ dq)))"
  by (simp add: func_def)

lemma func_valid:
  "env_match (env opt) \<Longrightarrow>
   fst (func pf opt c) \<noteq> [] \<and> snd (func pf opt c) \<noteq> Thrown (Error msg)"
  using singleRun_no_Error [of pf opt c msg]
  by (auto simp: func_def Let_def split: prod.splits sum.splits)

text \<open>
  C9. The command throws the error "invalid environment" exactly when the environment
  option is neither \<open>production\<close> nor \<open>development\<close>, and then before it has done anything:
  no header written, no directory changed, no pass run, no watcher started. For the two
  values it throws no such error.
\<close>

theorem invalid_environment_throws_first:
  "(func pf opt c = ([], Thrown (Error (''invalid environment '' @ dq @ env opt @ dq))))
     = (env opt \<noteq> ''production'' \<and> env opt \<noteq> ''development'') \<and>
   (\<exists>msg. snd (func pf opt c) = Thrown (Error msg))
     = (env opt \<noteq> ''production'' \<and> env opt \<noteq> ''development'')"
proof (cases "env_match (env opt)")
  case True
  then show ?thesis
    using func_valid [of opt pf c] by (auto simp: env_match_iff)
next
  case False
  then show ?thesis
    using func_invalid [of opt pf c] by (auto simp: env_match_iff)
qed

theorem invalid_environment_throws_first_witness:
  "func demo_platform (demo_opts\<lparr> env := ''staging'' \<rparr>) all_pass =
     ([], Thrown (Error (''invalid environment '' @ dq @ ''staging'' @ dq))) \<and>
   snd (func demo_platform (demo_opts\<lparr> env := ''production'', watch := False \<rparr>) all_pass)
     = Returned []"
proof -
  have a: "func demo_platform (demo_opts\<lparr> env := ''staging'' \<rparr>) all_pass =
     ([], Thrown (Error (''invalid environment '' @ dq @ ''staging'' @ dq)))"
    using invalid_environment_throws_first [of demo_platform "demo_opts\<lparr> env := ''staging'' \<rparr>" all_pass]
    by simp
  have b: "snd (singleRun demo_platform (demo_opts\<lparr> env := ''production'', watch := False \<rparr>) all_pass)
      = Inr JSUndefined"
    by (rule all_pass_resolves)
  have c: "snd (func demo_platform (demo_opts\<lparr> env := ''production'', watch := False \<rparr>) all_pass)
     = Returned []"
    using b by (auto simp: func_def env_match_iff Let_def split: prod.splits)
  show ?thesis
    using a c by simp
qed

section \<open>The watch loop\<close>

subsection \<open>Events before the watcher is ready\<close>

text \<open>
  C10. A change event that arrives while \<open>ready\<close> is false leaves the whole state as it
  is: no path recorded, \<open>need\<close> not set, no timeout created or cancelled.
\<close>

theorem change_before_ready_ignored: "\<not> ready s \<Longrightarrow> watcher_all ev path s = s"
  by (simp add: watcher_all_def)

theorem change_before_ready_ignored_witness:
  "\<not> ready watch_start \<and> watcher_all ''add'' ''src/app.js'' watch_start = watch_start"
proof -
  have a: "\<not> ready watch_start"
    by (simp add: watch_start_def)
  show ?thesis
    using change_before_ready_ignored [OF a] a by simp
qed

subsection \<open>The invariant\<close>

lemma loop_inv_start: "loop_inv watch_start"
  by (simp add: loop_inv_def watch_start_def)

lemma loop_inv_now: "loop_inv (s\<lparr>now := t\<rparr>) = loop_inv s"
  by (simp add: loop_inv_def)

lemma distinct_set_key: "distinct ks \<Longrightarrow> distinct (set_key k ks)"
  by (simp add: set_key_def)

lemma set_set_key: "set (set_key k ks) = set ks \<union> (if recordable k then {k} else {})"
  by (auto simp: set_key_def recordable_def)



lemma length_Object_keys: "length (Object_keys ks) = length ks"
proof -
  have "length (Object_keys ks) =
      length (filter (\<lambda>k. array_index k \<noteq> None) ks) +
      length (filter (\<lambda>k. \<not> array_index k \<noteq> None) ks)"
    by (simp add: Object_keys_def)
  then show ?thesis
    using sum_length_filter_compl [of "\<lambda>k. array_index k \<noteq> None" ks] by simp
qed

lemma loop_inv_ready: "loop_inv s \<Longrightarrow> \<not> ready s \<Longrightarrow> loop_inv (watcher_ready s)"
  by (auto simp: loop_inv_def watcher_ready_def setTimeout_def)

lemma loop_inv_all: "loop_inv s \<Longrightarrow> loop_inv (watcher_all ev p s)"
  unfolding loop_inv_def watcher_all_def setTimeout_def clearTimeout_def Let_def
  by (auto simp: distinct_set_key split: option.splits)

lemma loop_inv_fire:
  "loop_inv s \<Longrightarrow> map_of (timeouts s) h = Some due \<Longrightarrow> loop_inv (handler_begin pf (clearTimeout h s))"
  unfolding loop_inv_def handler_begin_def clearTimeout_def Let_def
  by (auto split: if_splits)

lemma loop_inv_resume: "loop_inv s \<Longrightarrow> 0 < awaiting s \<Longrightarrow>
   loop_inv (handler_resume (s\<lparr> awaiting := awaiting s - Suc 0, out := out s @ effs \<rparr>))"
  unfolding loop_inv_def handler_resume_def setTimeout_def clearTimeout_def Let_def
  by (auto split: option.splits)

lemma loop_inv_reject: "loop_inv s \<Longrightarrow> 0 < awaiting s \<Longrightarrow>
   loop_inv (s\<lparr> awaiting := awaiting s - Suc 0, out := out s @ effs, rejections := rejections s @ [e] \<rparr>)"
  unfolding loop_inv_def by auto

lemma loop_inv_react: "loop_inv s \<Longrightarrow> react pf opt e s = Some s' \<Longrightarrow> loop_inv s'"
proof (cases e)
  case (Ready t)
  then show "loop_inv s \<Longrightarrow> react pf opt e s = Some s' \<Longrightarrow> loop_inv s'"
    by (auto simp: loop_inv_ready split: if_splits)
next
  case (All t ev p)
  then show "loop_inv s \<Longrightarrow> react pf opt e s = Some s' \<Longrightarrow> loop_inv s'"
    by (auto simp: loop_inv_all)
next
  case (Fire t h)
  then show "loop_inv s \<Longrightarrow> react pf opt e s = Some s' \<Longrightarrow> loop_inv s'"
    by (auto simp: loop_inv_fire split: option.splits if_splits)
next
  case (Settle t c)
  then show "loop_inv s \<Longrightarrow> react pf opt e s = Some s' \<Longrightarrow> loop_inv s'"
    by (auto simp: loop_inv_resume loop_inv_reject split: if_splits prod.splits sum.splits)
qed

lemma loop_inv_step: "loop_inv s \<Longrightarrow> step pf opt e s = Some s' \<Longrightarrow> loop_inv s'"
  unfolding step_def using loop_inv_react [of "s\<lparr>now := time_of e\<rparr>" pf opt e s']
  by (auto simp: loop_inv_now split: if_splits)

lemma loop_inv_exec: "loop_inv s \<Longrightarrow> exec pf opt es s = Some s' \<Longrightarrow> loop_inv s'"
proof (induction es arbitrary: s)
  case Nil
  then show ?case by simp
next
  case (Cons e es)
  then show ?case by (auto split: option.splits dest: loop_inv_step)
qed

subsection \<open>Single steps and bursts\<close>

lemma step_all_idle:
  assumes "loop_inv s" "ready s" "\<not> running s" "step pf opt (All t ev p) s = Some s1"
  shows "timeouts s1 = [(next_handle s, t + 1000)] \<and> timer s1 = Some (next_handle s) \<and>
         next_handle s1 = Suc (next_handle s) \<and> now s1 = t \<and> ready s1 \<and> \<not> running s1 \<and>
         awaiting s1 = awaiting s \<and> need s1 \<and> changed s1 = set_key p (changed s)"
  using assms
  unfolding step_def loop_inv_def
  by (auto simp: watcher_all_def setTimeout_def clearTimeout_def Let_def
      split: if_splits option.splits)

lemma step_all_running:
  assumes "ready s" "running s" "step pf opt (All t ev p) s = Some s1"
  shows "timeouts s1 = timeouts s \<and> timer s1 = timer s \<and> next_handle s1 = next_handle s \<and>
         now s1 = t \<and> ready s1 \<and> running s1 \<and> awaiting s1 = awaiting s \<and> need s1 \<and>
         changed s1 = set_key p (changed s) \<and> out s1 = out s"
  using assms
  unfolding step_def
  by (auto simp: watcher_all_def Let_def split: if_splits)

lemma step_pending_is_All:
  assumes "loop_inv s" "ready s" "\<not> running s" "timeouts s = [(h, now s + 1000)]"
    "time_of e < now s + 1000" "step pf opt e s = Some s1"
  shows "is_All e"
proof (cases e)
  case (Ready t)
  with assms show ?thesis by (simp add: step_def split: if_splits)
next
  case (All t ev p)
  then show ?thesis by simp
next
  case (Fire t h')
  with assms show ?thesis by (auto simp: step_def split: if_splits option.splits)
next
  case (Settle t c)
  with assms show ?thesis by (auto simp: step_def loop_inv_def split: if_splits)
qed

lemma burst_tail:
  assumes "loop_inv s" "ready s" "\<not> running s" "timeouts s = [(h, now s + 1000)]" "timer s = Some h"
    "next_handle s = Suc h"
    "settle_from (now s) es" "exec pf opt es s = Some s'"
  shows "list_all is_All es \<and> ready s' \<and> \<not> running s' \<and> awaiting s' = awaiting s \<and>
         next_handle s' = next_handle s + length es \<and>
         timer s' = Some (next_handle s' - 1) \<and>
         timeouts s' = [(next_handle s' - 1, now s' + 1000)] \<and>
         now s' = (if es = [] then now s else time_of (last es)) \<and>
         set (changed s') = set (changed s) \<union> set (filter recordable (changes es))"
  using assms
proof (induction es arbitrary: s h)
  case Nil
  then show ?case by simp
next
  case (Cons e es)
  from Cons.prems obtain s1 where s1: "step pf opt e s = Some s1" and rest: "exec pf opt es s1 = Some s'"
    by (auto split: option.splits)
  from Cons.prems have near: "time_of e < now s + 1000" and more: "settle_from (time_of e) es"
    by simp_all
  have all: "is_All e"
    using step_pending_is_All [OF Cons.prems(1-4) near s1] .
  then obtain t ev p where e: "e = All t ev p"
    by (cases e) simp_all
  have inv1: "loop_inv s1"
    using loop_inv_step [OF Cons.prems(1) s1] .
  note st = step_all_idle [OF Cons.prems(1-3) s1 [unfolded e]]
  have t: "time_of e = now s1" using st e by simp
  have ih: "list_all is_All es \<and> ready s' \<and> \<not> running s' \<and> awaiting s' = awaiting s1 \<and>
         next_handle s' = next_handle s1 + length es \<and>
         timer s' = Some (next_handle s' - 1) \<and>
         timeouts s' = [(next_handle s' - 1, now s' + 1000)] \<and>
         now s' = (if es = [] then now s1 else time_of (last es)) \<and>
         set (changed s') = set (changed s1) \<union> set (filter recordable (changes es))"
    using Cons.IH [of s1 "next_handle s"] inv1 st more rest t by simp
  show ?case
    using ih st all e t by (simp add: set_set_key Un_assoc)
qed

lemma idle_not_awaiting: "loop_inv s \<Longrightarrow> \<not> running s \<Longrightarrow> awaiting s = 0"
  by (auto simp: loop_inv_def)

lemma step_fire_iff:
  assumes "timeouts s = [(h, due)]" "now s \<le> due"
  shows "(step pf opt (Fire t' h') s \<noteq> None) = (h' = h \<and> due \<le> t')"
  using assms by (auto simp: step_def)

lemma step_fire_starts:
  assumes "timeouts s = [(h, due)]" "now s \<le> due" "due \<le> t'" "awaiting s = 0"
  shows "\<exists>s''. step pf opt (Fire t' h) s = Some s'' \<and> running s'' \<and> awaiting s'' = 1 \<and>
           timeouts s'' = []"
  using assms by (auto simp: step_def handler_begin_def clearTimeout_def Let_def)

lemma running_burst:
  assumes "ready s" "running s" "list_all is_All es" "exec pf opt es s = Some s1"
  shows "timeouts s1 = timeouts s \<and> timer s1 = timer s \<and> next_handle s1 = next_handle s \<and>
         ready s1 \<and> running s1 \<and> awaiting s1 = awaiting s \<and> (es \<noteq> [] \<longrightarrow> need s1) \<and>
         (need s \<longrightarrow> need s1) \<and>
         set (changed s1) = set (changed s) \<union> set (filter recordable (changes es)) \<and> out s1 = out s"
  using assms
proof (induction es arbitrary: s)
  case Nil
  then show ?case by simp
next
  case (Cons e es)
  from Cons.prems obtain t ev p where e: "e = All t ev p"
    by (cases e) simp_all
  from Cons.prems obtain s0 where s0: "step pf opt (All t ev p) s = Some s0"
    and rest: "exec pf opt es s0 = Some s1"
    by (auto simp: e split: option.splits)
  note st = step_all_running [OF Cons.prems(1,2) s0]
  have "timeouts s1 = timeouts s0 \<and> timer s1 = timer s0 \<and> next_handle s1 = next_handle s0 \<and>
         ready s1 \<and> running s1 \<and> awaiting s1 = awaiting s0 \<and> (es \<noteq> [] \<longrightarrow> need s1) \<and>
         (need s0 \<longrightarrow> need s1) \<and>
         set (changed s1) = set (changed s0) \<union> set (filter recordable (changes es)) \<and> out s1 = out s0"
    using Cons.IH [of s0] st Cons.prems(3) rest by simp
  then show ?case
    using st e by (simp add: set_set_key Un_assoc)
qed

lemma settle_resolved:
  assumes "loop_inv s" "need s" "snd (singleRun pf opt c) = Inr v"
    "step pf opt (Settle t c) s = Some s2"
  shows "\<not> running s2 \<and> awaiting s2 = 0 \<and> timeouts s2 = [(next_handle s, t)] \<and>
         timer s2 = Some (next_handle s) \<and> next_handle s2 = Suc (next_handle s) \<and>
         changed s2 = changed s \<and> need s2 \<and>
         out s2 = out s @ fst (singleRun pf opt c) @ [idle_banner]"
  using assms
  unfolding step_def loop_inv_def
  by (cases "singleRun pf opt c")
     (auto simp: handler_resume_def setTimeout_def clearTimeout_def Let_def
      split: if_splits option.splits)

lemma running_ready: "loop_inv s \<Longrightarrow> running s \<Longrightarrow> ready s"
  by (auto simp: loop_inv_def)














lemma step_settle_rejected:
  assumes "snd (singleRun pf opt c) = Inl e" "0 < awaiting s" "now s \<le> t"
  shows "step pf opt (Settle t c) s =
           Some (s\<lparr> now := t, awaiting := awaiting s - 1,
                    out := out s @ fst (singleRun pf opt c),
                    rejections := rejections s @ [e] \<rparr>)"
  using assms by (cases "singleRun pf opt c") (simp add: step_def)


lemma exec_first_run:
  "exec pf opt first_run watch_start =
     Some (watch_start\<lparr> first := False, ready := True, timer := Some 0, running := True,
             next_handle := 1, awaiting := 1 \<rparr>)"
  by (simp add: first_run_def step_def watch_start_def watcher_ready_def setTimeout_def
      handler_begin_def clearTimeout_def Let_def)

lemma exec_append:
  "exec pf opt (es @ es') s = (case exec pf opt es s of None \<Rightarrow> None | Some s1 \<Rightarrow> exec pf opt es' s1)"
  by (induction es arbitrary: s) (auto split: option.splits)

subsection \<open>A run whose bundler output does not parse\<close>

text \<open>
  C1, as the code has it. When the linters pass and the bundler's standard output does
  not parse as JSON, the run writes the parse failure with the raw output to the error
  stream, as its last effect, and is rejected with the raw output: it does not resolve,
  neither as a pass nor as a failure.
\<close>

theorem unparseable_output_rejects_run:
  assumes "lint_ok pf c" "JSON_parse c (webpack_stdout c) = None"
  shows "snd (singleRun pf opt c) = Inl (Raw (webpack_stdout c)) \<and>
         last (fst (singleRun pf opt c)) =
           Stderr (''ERROR: failed to parse JSON output of Webpack:'' @ nl @ webpack_stdout c) \<and>
         (\<forall>v. snd (singleRun pf opt c) \<noteq> Inr v)"
  using singleRun_rejects [OF assms] singleRun_rejects_last [OF assms]
  by simp

theorem unparseable_output_rejects_run_witness:
  "lint_ok demo_platform garbled \<and> JSON_parse garbled (webpack_stdout garbled) = None \<and>
   snd (singleRun demo_platform demo_opts garbled) = Inl (Raw ''Error: Cannot find module'') \<and>
   last (fst (singleRun demo_platform demo_opts garbled)) =
     Stderr (''ERROR: failed to parse JSON output of Webpack:'' @ nl @ ''Error: Cannot find module'')"
  using unparseable_output_rejects_run [OF garbled_lint_ok garbled_parse, of demo_opts]
    garbled_lint_ok garbled_parse
  by (simp add: garbled_stdout)

text \<open>
  C1 as stated fails: with a bundler that prints a plain message, the run is rejected
  with that message; it does not resolve with the result \<open>false\<close>, nor with any result.
\<close>

theorem unparseable_output_not_resolved:
  "webpack_stdout garbled = ''Error: Cannot find module'' \<and>
   JSON_parse garbled (webpack_stdout garbled) = None \<and>
   snd (singleRun demo_platform demo_opts garbled) = Inl (Raw ''Error: Cannot find module'') \<and>
   snd (singleRun demo_platform demo_opts garbled) \<noteq> Inr (JSBool False) \<and>
   snd (singleRun demo_platform demo_opts garbled) \<noteq> Inr JSUndefined"
proof -
  have rej: "snd (singleRun demo_platform demo_opts garbled) = Inl (Raw ''Error: Cannot find module'')"
    using singleRun_rejects [OF garbled_lint_ok garbled_parse, of demo_opts]
    by (simp add: garbled_stdout)
  show ?thesis
    using rej garbled_parse garbled_stdout by simp
qed

subsection \<open>One run at a time\<close>

text \<open>
  In every state the watch loop reaches at most one invocation of \<open>handler\<close> is suspended
  in a run, \<open>running\<close> is true during it, and no timeout can fire while \<open>running\<close> is true;
  as long as no run was rejected, \<open>running\<close> is true only during a run.
\<close>

lemma single_flight:
  assumes "exec pf opt evs watch_start = Some s"
  shows "awaiting s \<le> 1 \<and> (awaiting s = 1 \<longrightarrow> running s) \<and>
         (running s \<longrightarrow> (\<forall>t h. step pf opt (Fire t h) s = None)) \<and>
         (rejections s = [] \<and> running s \<longrightarrow> awaiting s = 1)"
proof -
  have "loop_inv s"
    using loop_inv_exec [OF loop_inv_start assms] .
  then show ?thesis
    by (auto simp: loop_inv_def step_def)
qed

text \<open>
  C5 does not hold of the code: \<open>running\<close> is not false whenever no run is in flight. The
  watcher becomes ready, the first run starts, and the bundler prints a plain message:
  the run is rejected, \<open>handler\<close> never reaches \<open>running = false\<close>, and from then on
  \<open>running\<close> is true with no run in flight. A change that arrives afterwards sets \<open>need\<close>
  and schedules nothing.
\<close>

theorem running_stuck_after_rejected_run:
  "map_option running
     (exec demo_platform demo_opts
        (first_run @ [Settle 7 garbled, All 9 ''change'' ''src/app.js'']) watch_start)
     = Some True \<and>
   map_option awaiting
     (exec demo_platform demo_opts
        (first_run @ [Settle 7 garbled, All 9 ''change'' ''src/app.js'']) watch_start)
     = Some 0 \<and>
   map_option timeouts
     (exec demo_platform demo_opts
        (first_run @ [Settle 7 garbled, All 9 ''change'' ''src/app.js'']) watch_start)
     = Some [] \<and>
   map_option need
     (exec demo_platform demo_opts
        (first_run @ [Settle 7 garbled, All 9 ''change'' ''src/app.js'']) watch_start)
     = Some True"
  using step_settle_rejected [OF singleRun_rejects [OF garbled_lint_ok garbled_parse],
      of "watch_start\<lparr> first := False, ready := True, timer := Some 0, running := True,
             next_handle := 1, awaiting := 1 \<rparr>" 7 demo_opts]
  by (simp add: exec_append exec_first_run)
     (simp add: step_def watcher_all_def watch_start_def Let_def)

subsection \<open>Debouncing\<close>

text \<open>
  C3. Take a reachable state with \<open>ready\<close> true and \<open>running\<close> false, and from it any
  sequence of events that starts with a change event and in which every event comes less
  than 1000 ms after the one before. Then all of them are change events (no timeout can
  fire in between, no run starts), each of them has created one timeout, and exactly one
  timeout is active at the end: the one of the last event, which \<open>timer\<close> holds, due
  1000 ms after the last event. No timeout can fire before that time and no other one at
  all; from that time on this one can fire, and firing starts one run.
\<close>

theorem burst_coalesces_into_one_rerun:
  assumes reach: "exec pf opt pre watch_start = Some s"
    and idle: "ready s" "\<not> running s"
    and near: "within_settle (All t ev p # es)"
    and run: "exec pf opt (All t ev p # es) s = Some s'"
  shows "list_all is_All es \<and> \<not> running s' \<and> awaiting s' = 0 \<and>
         next_handle s' = next_handle s + length (All t ev p # es) \<and>
         timer s' = Some (next_handle s + length es) \<and>
         timeouts s' = [(next_handle s + length es, time_of (last (All t ev p # es)) + 1000)] \<and>
         (\<forall>t' h'. (step pf opt (Fire t' h') s' \<noteq> None)
                    = (h' = next_handle s + length es \<and>
                       time_of (last (All t ev p # es)) + 1000 \<le> t')) \<and>
         (\<forall>t'. time_of (last (All t ev p # es)) + 1000 \<le> t' \<longrightarrow>
            (\<exists>s''. step pf opt (Fire t' (next_handle s + length es)) s' = Some s'' \<and>
                   running s'' \<and> awaiting s'' = 1 \<and> timeouts s'' = []))"
proof -
  have inv_s: "loop_inv s"
    using loop_inv_exec [OF loop_inv_start reach] .
  from run obtain s1 where s1: "step pf opt (All t ev p) s = Some s1"
    and rest: "exec pf opt es s1 = Some s'"
    by (auto split: option.splits)
  have inv1: "loop_inv s1"
    using loop_inv_step [OF inv_s s1] .
  note st = step_all_idle [OF inv_s idle s1]
  have from1: "settle_from (now s1) es"
    using near st by simp
  have tail: "list_all is_All es \<and> ready s' \<and> \<not> running s' \<and> awaiting s' = awaiting s1 \<and>
         next_handle s' = next_handle s1 + length es \<and>
         timer s' = Some (next_handle s' - 1) \<and>
         timeouts s' = [(next_handle s' - 1, now s' + 1000)] \<and>
         now s' = (if es = [] then now s1 else time_of (last es)) \<and>
         set (changed s') = set (changed s1) \<union> set (filter recordable (changes es))"
    using burst_tail [of s1 "next_handle s" es pf opt s'] inv1 st from1 rest by simp
  have last: "now s' = time_of (last (All t ev p # es))"
    using tail st by simp
  have zero: "awaiting s' = 0"
    using tail st idle_not_awaiting [OF inv_s idle(2)] by simp
  have handle: "next_handle s' - 1 = next_handle s + length es"
    using tail st by simp
  have due: "timeouts s' = [(next_handle s + length es, time_of (last (All t ev p # es)) + 1000)]"
    using tail last handle by simp
  have le: "now s' \<le> time_of (last (All t ev p # es)) + 1000"
    using last by simp
  have fire: "\<forall>t' h'. (step pf opt (Fire t' h') s' \<noteq> None)
                    = (h' = next_handle s + length es \<and>
                       time_of (last (All t ev p # es)) + 1000 \<le> t')"
    using step_fire_iff [OF due le] by blast
  have starts: "\<forall>t'. time_of (last (All t ev p # es)) + 1000 \<le> t' \<longrightarrow>
            (\<exists>s''. step pf opt (Fire t' (next_handle s + length es)) s' = Some s'' \<and>
                   running s'' \<and> awaiting s'' = 1 \<and> timeouts s'' = [])"
    using step_fire_starts [OF due le _ zero] by blast
  have count: "next_handle s' = next_handle s + length (All t ev p # es)"
    using tail st by simp
  have tm: "timer s' = Some (next_handle s + length es)"
    using tail handle by simp
  show ?thesis
    using tail zero count tm due fire starts by blast
qed

theorem burst_coalesces_into_one_rerun_witness:
  "\<exists>s s'. exec demo_platform demo_opts [Ready 0] watch_start = Some s \<and> ready s \<and> \<not> running s \<and>
     within_settle demo_burst \<and> exec demo_platform demo_opts demo_burst s = Some s' \<and>
     timer s' = Some 3 \<and> timeouts s' = [(3, 2400)] \<and> awaiting s' = 0 \<and> next_handle s' = 4"
proof -
  have a: "exec demo_platform demo_opts [Ready 0] watch_start = Some (watcher_ready watch_start)"
    by (simp add: step_def watch_start_def watcher_ready_def setTimeout_def)
  have b: "ready (watcher_ready watch_start)" "\<not> running (watcher_ready watch_start)"
    by (simp_all add: watch_start_def watcher_ready_def setTimeout_def)
  have c: "within_settle (All 10 ''change'' ''src/app.js'' #
             [All 500 ''add'' ''src/view.html'', All 1400 ''change'' ''src/app.js''])"
    by simp
  have "\<exists>s'. exec demo_platform demo_opts (All 10 ''change'' ''src/app.js'' #
             [All 500 ''add'' ''src/view.html'', All 1400 ''change'' ''src/app.js''])
             (watcher_ready watch_start) = Some s'"
    by (simp add: step_def watch_start_def watcher_ready_def watcher_all_def setTimeout_def
        clearTimeout_def set_key_def Let_def)
  then obtain s' where d: "exec demo_platform demo_opts (All 10 ''change'' ''src/app.js'' #
             [All 500 ''add'' ''src/view.html'', All 1400 ''change'' ''src/app.js''])
             (watcher_ready watch_start) = Some s'"
    by blast
  have n: "next_handle (watcher_ready watch_start) = 1"
    by (simp add: watch_start_def watcher_ready_def setTimeout_def)
  have "timer s' = Some 3 \<and> timeouts s' = [(3, 2400)] \<and> awaiting s' = 0 \<and> next_handle s' = 4"
    using burst_coalesces_into_one_rerun [OF a b c d] n by simp
  then show ?thesis
    using a b c d by (auto simp: demo_burst_def)
qed

subsection \<open>Changes during a run\<close>

text \<open>
  Changes that arrive during a run create no timeout, leave \<open>timer\<close> as it is, record
  their paths and set \<open>need\<close>. When the run then resolves, \<open>running\<close> becomes false and
  exactly one timeout is created and active, with delay zero, which \<open>timer\<close> holds; the
  paths are carried over to the rerun.
\<close>

lemma change_during_run_then_resolved:
  assumes reach: "exec pf opt pre watch_start = Some s"
    and busy: "running s"
    and burst: "es \<noteq> []" "list_all is_All es"
    and during: "exec pf opt es s = Some s1"
    and resolves: "snd (singleRun pf opt c) = Inr v"
    and finish: "step pf opt (Settle t c) s1 = Some s2"
  shows "ready s \<and> running s1 \<and> timeouts s1 = [] \<and> timer s1 = timer s \<and>
         next_handle s1 = next_handle s \<and> need s1 \<and>
         set (changed s1) = set (changed s) \<union> set (filter recordable (changes es)) \<and>
         \<not> running s2 \<and> awaiting s2 = 0 \<and> timer s2 = Some (next_handle s1) \<and>
         timeouts s2 = [(next_handle s1, t)] \<and> next_handle s2 = next_handle s1 + 1 \<and>
         changed s2 = changed s1"
proof -
  have inv_s: "loop_inv s"
    using loop_inv_exec [OF loop_inv_start reach] .
  have rdy: "ready s"
    using running_ready [OF inv_s busy] .
  have none: "timeouts s = []"
    using inv_s busy by (simp add: loop_inv_def)
  note b = running_burst [OF rdy busy burst(2) during]
  have inv1: "loop_inv s1"
    using loop_inv_exec [OF inv_s during] .
  have need1: "need s1"
    using b burst(1) by simp
  note f = settle_resolved [OF inv1 need1 resolves finish]
  show ?thesis
    using rdy none b need1 f by simp
qed

text \<open>
  Once \<open>running\<close> is true with no invocation suspended and no timeout active, it stays
  so: whatever events follow, they are change events only, and no run starts again.
\<close>

lemma stuck_step:
  assumes "ready s" "running s" "awaiting s = 0" "timeouts s = []" "step pf opt e s = Some s1"
  shows "is_All e \<and> ready s1 \<and> running s1 \<and> awaiting s1 = 0 \<and> timeouts s1 = []"
proof (cases e)
  case (Ready t)
  with assms show ?thesis by (simp add: step_def split: if_splits)
next
  case (All t ev p)
  with assms show ?thesis
    using step_all_running [of s pf opt t ev p s1] by simp
next
  case (Fire t h)
  with assms show ?thesis by (simp add: step_def split: if_splits)
next
  case (Settle t c)
  with assms show ?thesis by (simp add: step_def split: if_splits)
qed

lemma stuck_never_reruns:
  assumes "ready s" "running s" "awaiting s = 0" "timeouts s = []" "exec pf opt es s = Some s'"
  shows "list_all is_All es \<and> ready s' \<and> running s' \<and> awaiting s' = 0 \<and> timeouts s' = []"
  using assms
proof (induction es arbitrary: s)
  case Nil
  then show ?case by simp
next
  case (Cons e es)
  from Cons.prems obtain s1 where s1: "step pf opt e s = Some s1"
    and rest: "exec pf opt es s1 = Some s'"
    by (auto split: option.splits)
  note st = stuck_step [OF Cons.prems(1-4) s1]
  show ?case
    using Cons.IH [of s1] st rest by simp
qed

text \<open>
  C4 does not hold of the code: a change that arrives during a run is not always followed
  by a rerun. The first run of a watch loop is in flight, a file changes (the path is
  recorded and \<open>need\<close> set, no timeout created), and then the bundler prints a plain
  message: the run is rejected, \<open>handler\<close> never reaches the code that schedules the
  rerun, no timeout is active and none can fire at any time. The change gets no rerun.
\<close>

theorem change_during_rejected_run_never_reruns:
  "\<exists>s. exec demo_platform demo_opts
          (first_run @ [All 5 ''change'' ''src/app.js''] @ [Settle 7 garbled]) watch_start = Some s \<and>
       changed s = [''src/app.js''] \<and> need s \<and> running s \<and> awaiting s = 0 \<and>
       timeouts s = [] \<and> (\<forall>t h. step demo_platform demo_opts (Fire t h) s = None)"
proof -
  let ?s = "watch_start\<lparr> first := False, ready := True, timer := Some 0, running := True,
             next_handle := 1, awaiting := 1 \<rparr>"
  let ?s1 = "?s\<lparr> need := True, changed := [''src/app.js''], now := 5 \<rparr>"
  let ?s2 = "?s1\<lparr> now := 7, awaiting := awaiting ?s1 - 1,
               out := out ?s1 @ fst (singleRun demo_platform demo_opts garbled),
               rejections := rejections ?s1 @ [Raw (webpack_stdout garbled)] \<rparr>"
  have d: "exec demo_platform demo_opts [All 5 ''change'' ''src/app.js''] ?s = Some ?s1"
    by (simp add: step_def watcher_all_def set_key_def Let_def watch_start_def)
  have e: "step demo_platform demo_opts (Settle 7 garbled) ?s1 = Some ?s2"
    using step_settle_rejected [OF singleRun_rejects [OF garbled_lint_ok garbled_parse], of ?s1 7 demo_opts]
    by (simp add: watch_start_def)
  have reach: "exec demo_platform demo_opts
          (first_run @ [All 5 ''change'' ''src/app.js''] @ [Settle 7 garbled]) watch_start = Some ?s2"
    apply (simp only: exec_append exec_first_run d option.case)
    apply (simp only: exec.simps e option.case)
    done
  have fields: "changed ?s2 = [''src/app.js''] \<and> need ?s2 \<and> running ?s2 \<and> awaiting ?s2 = 0 \<and>
      timeouts ?s2 = []"
    by (simp add: watch_start_def)
  have "\<forall>t h. step demo_platform demo_opts (Fire t h) ?s2 = None"
    using fields by (simp add: step_def)
  then show ?thesis
    using reach fields by blast
qed

subsection \<open>The summary of changed files\<close>



text \<open>
  The keys as \<open>Object.keys\<close> lists them, on a sample: array indices first, by number;
  a numeral with a leading zero is no array index; \<open>__proto__\<close> is not recorded.
\<close>

lemma Object_keys_sample:
  "Object_keys (set_key ''007'' (set_key ''__proto__'' (set_key ''2'' (set_key ''10''
     (set_key ''src/b.js'' [])))))
   = [''2'', ''10'', ''src/b.js'', ''007'']"
  by (simp add: Object_keys_def set_key_def array_index_def index_rank_def digit_of_def)



end
